theory Spec2Isabelle
  imports Complex_Main
begin

section \<open>Data model of tasks/vrp.py\<close>

text \<open>
  The dynamic state of \<open>VehicleRoutingDataset\<close> is a tensor of shape
  \<open>(batch, 2, seq_len)\<close>: feature 0 of an instance is its row of loads, feature 1 its row
  of demands, slot 0 of a row belongs to the depot. An instance is a record of the two rows
  and the batch is a list of instances. Stored (normalised) values are modelled as exact
  rationals; \<open>.int()\<close> truncates toward zero. The batch operations below compute with
  exact arithmetic; the rounding of 32-bit floats in the conversion between stored values
  and integer units is modelled on its own, in the section on float32.
\<close>

datatype error = ValueError | IndexError | RuntimeError | AttributeError
  | ZeroDivisionError | NotATensor | NotModelled

record sample =
  loads :: "rat list"
  demands :: "rat list"

text \<open>A tensor is rectangular: every row of every instance has the same length.\<close>

definition rectangular :: "nat \<Rightarrow> sample list \<Rightarrow> bool" where
  "rectangular S dynamic =
     list_all (\<lambda>inst. length (loads inst) = S \<and> length (demands inst) = S) dynamic"

definition seq_len :: "sample list \<Rightarrow> nat" where
  "seq_len dynamic = (case dynamic of [] \<Rightarrow> 0 | inst # _ \<Rightarrow> length (loads inst))"

definition is_tensor :: "sample list \<Rightarrow> bool" where
  "is_tensor dynamic = rectangular (seq_len dynamic) dynamic"

text \<open>\<open>x.int()\<close> on a float tensor: truncation toward zero.\<close>

definition trunc :: "rat \<Rightarrow> int" where
  "trunc x = (if 0 \<le> x then \<lfloor>x\<rfloor> else \<lceil>x\<rceil>)"

text \<open>\<open>(self.max_load * dynamic.data).int()\<close>, one element.\<close>

definition to_int :: "int \<Rightarrow> rat \<Rightarrow> int" where
  "to_int max_load x = trunc (of_int max_load * x)"

text \<open>\<open>b.float()\<close> of a byte tensor element, and \<open>m.any()\<close>.\<close>

definition float_of :: "bool \<Rightarrow> rat" where
  "float_of b = (if b then 1 else 0)"

definition any :: "bool list \<Rightarrow> bool" where
  "any bs = list_ex (\<lambda>b. b) bs"

text \<open>
  \<open>t[m, ...] = v\<close> with a byte mask \<open>m\<close> over the batch: the rows selected by the mask
  are rewritten by \<open>f\<close>, the others are kept.
\<close>

definition assign_where :: "bool list \<Rightarrow> ('a \<Rightarrow> 'a) \<Rightarrow> 'a list \<Rightarrow> 'a list" where
  "assign_where m f rows = map2 (\<lambda>b row. if b then f row else row) m rows"

section \<open>update\_mask\<close>

text \<open>
  The argument \<open>mask\<close> (here \<open>mask_arg\<close>) is not read by the source.
  \<open>chosen_idx\<close> defaults to \<open>None\<close>, on which \<open>chosen_idx.ne(0)\<close> raises. The
  model covers a \<open>chosen_idx\<close> that holds one index per sample; what the tensor
  operations do with another length (they refuse some shapes and accept others) is not
  modelled and marked \<open>NotModelled\<close>. A list of rows that is not rectangular is not a
  tensor. The byte masks \<open>repeat_home\<close>, \<open>1 - repeat_home\<close> and
  \<open>combined\<close> select the rows that an indexed assignment rewrites.
\<close>

definition update_mask ::
  "int \<Rightarrow> rat list list \<Rightarrow> sample list \<Rightarrow> nat list option \<Rightarrow> error + rat list list" where
  "update_mask max_load mask_arg dynamic chosen_idx =
     (if \<not> is_tensor dynamic then Inl NotATensor
      else
        let lds = map (\<lambda>inst. map (to_int max_load) (loads inst)) dynamic;
            dms = map (\<lambda>inst. map (to_int max_load) (demands inst)) dynamic
        in if list_all (\<lambda>row. list_all (\<lambda>d. d = 0) (drop 1 row)) dms
           then Inr (map (map (\<lambda>d. of_int d * 0)) dms)
           else (case chosen_idx of
               None \<Rightarrow> Inl AttributeError
             | Some chosen \<Rightarrow>
                 if length chosen \<noteq> length dynamic then Inl NotModelled
                 else
                   let new_mask = map (map (\<lambda>d. d \<noteq> 0)) dms;
                       repeat_home = map (\<lambda>c. c \<noteq> 0) chosen;
                       new_mask = (if any repeat_home
                                   then assign_where repeat_home (\<lambda>row. row[0 := True]) new_mask
                                   else new_mask);
                       new_mask = (if any (map Not repeat_home)
                                   then assign_where (map Not repeat_home)
                                          (\<lambda>row. row[0 := False]) new_mask
                                   else new_mask);
                       has_no_load = map (\<lambda>row. float_of (row ! 0 = 0)) lds;
                       has_no_demand = map (\<lambda>row. float_of (sum_list (drop 1 row) = 0)) dms;
                       combined = map2 (\<lambda>a b. a + b > 0) has_no_load has_no_demand;
                       new_mask = (if any combined
                                   then assign_where combined
                                          (\<lambda>row. take 1 (row[0 := True])
                                                 @ replicate (length row - 1) False) new_mask
                                   else new_mask)
                   in Inr (map (map float_of) new_mask)))"


text \<open>
  The condition under which the source returns early: \<open>demands[:, 1:].eq(0).all()\<close>,
  taken over the whole batch.
\<close>

definition customers_served :: "int \<Rightarrow> sample \<Rightarrow> bool" where
  "customers_served max_load inst =
     list_all (\<lambda>d. to_int max_load d = 0) (drop 1 (demands inst))"

definition all_served :: "int \<Rightarrow> sample list \<Rightarrow> bool" where
  "all_served max_load dynamic = list_all (customers_served max_load) dynamic"

text \<open>The row of the mask that the statements after the early return leave for one sample.\<close>

definition row_mask :: "int \<Rightarrow> sample \<Rightarrow> nat \<Rightarrow> rat list" where
  "row_mask max_load inst c =
     (let l = map (to_int max_load) (loads inst);
          d = map (to_int max_load) (demands inst)
      in if l ! 0 = 0 \<or> sum_list (drop 1 d) = 0
         then 1 # replicate (length d - 1) 0
         else (map (\<lambda>x. float_of (x \<noteq> 0)) d)[0 := float_of (c \<noteq> 0)])"

text \<open>Two batches that differ at most in slot 0 of the demand rows (the depot marker).\<close>

definition same_but_marker :: "sample list \<Rightarrow> sample list \<Rightarrow> bool" where
  "same_but_marker dynamic dynamic' =
     list_all2 (\<lambda>a b. loads a = loads b \<and> length (demands a) = length (demands b)
                       \<and> drop 1 (demands a) = drop 1 (demands b)) dynamic dynamic'"

section \<open>update\_dynamic\<close>

text \<open>
  \<open>self.masked_scatter_(m, source)\<close>: the positions of \<open>self\<close> where the mask is set
  receive the elements of \<open>source\<close> in order, starting at position 0 of \<open>source\<close>: the
  \<open>k\<close>-th set position receives \<open>source[k]\<close>. The other positions keep their value.
\<close>

definition masked_scatter :: "'a list \<Rightarrow> bool list \<Rightarrow> 'a list \<Rightarrow> 'a list" where
  "masked_scatter self m source =
     map (\<lambda>i. if m ! i then source ! length (filter (\<lambda>b. b) (take i m)) else self ! i)
       [0..<length self]"

text \<open>
  \<open>torch.gather\<close> refuses an index outside the row. As for update\_mask, a
  \<open>chosen_idx\<close> that does not hold one index per sample is not modelled. All writes go to
  the clone \<open>tensor\<close>, of which \<open>all_loads\<close> and \<open>all_demands\<close> are views;
  \<open>load\<close> and \<open>demand\<close> are fresh tensors returned by \<open>gather\<close>.

  In the depot branch the mask is \<open>depot.ne(0).squeeze()\<close>. For a batch of two or more
  samples it is a mask over the batch and \<open>all_demands[m, 0] = 0.\<close> clears slot 0 of the
  selected rows. For a batch of one sample \<open>squeeze()\<close> leaves a 0-dimensional mask,
  which indexes a new leading axis, so that the \<open>0\<close> after it selects sample 0 as a
  whole: the assignment clears the whole demand row.
\<close>

definition update_dynamic :: "int \<Rightarrow> sample list \<Rightarrow> nat list \<Rightarrow> error + sample list" where
  "update_dynamic max_load dynamic chosen_idx =
     (if \<not> is_tensor dynamic then Inl NotATensor
      else if length chosen_idx \<noteq> length dynamic then Inl NotModelled
      else if list_ex (\<lambda>c. seq_len dynamic \<le> c) chosen_idx then Inl RuntimeError
      else
        let n = length dynamic;
            visit = map (\<lambda>c. c \<noteq> 0) chosen_idx;
            depot = map (\<lambda>c. c = 0) chosen_idx;
            all_loads = map loads dynamic;
            all_demands = map demands dynamic;
            load = map (\<lambda>i. all_loads ! i ! (chosen_idx ! i)) [0..<n];
            demand = map (\<lambda>i. all_demands ! i ! (chosen_idx ! i)) [0..<n];
            (all_loads, all_demands) =
              (if any visit then
                 let load_int = map (\<lambda>x. of_int (trunc (x * of_int max_load))) load;
                     demand_int = map (\<lambda>x. of_int (trunc (x * of_int max_load))) demand;
                     new_load = map (\<lambda>i. max (load_int ! i - demand_int ! i) 0
                                            / of_int max_load) [0..<n];
                     new_demand = map (\<lambda>i. max (demand_int ! i - load_int ! i) 0
                                              / of_int max_load) [0..<n];
                     new_demand = masked_scatter demand visit new_demand;
                     all_loads = map (\<lambda>i. if visit ! i
                                            then replicate (length (all_loads ! i)) (new_load ! i)
                                            else all_loads ! i) [0..<n];
                     all_demands = map (\<lambda>i. (all_demands ! i)[chosen_idx ! i := new_demand ! i])
                                     [0..<n];
                     all_demands = map (\<lambda>i. (all_demands ! i)
                                       [0 := all_demands ! i ! 0 * (1 - float_of (visit ! i))
                                             + (new_load ! i - 1) * float_of (visit ! i)])
                                     [0..<n]
                 in (all_loads, all_demands)
               else (all_loads, all_demands));
            (all_loads, all_demands) =
              (if any depot then
                 (assign_where depot (\<lambda>row. replicate (length row) 1) all_loads,
                  (if n = 1 then map (\<lambda>row. replicate (length row) 0) all_demands
                   else assign_where depot (\<lambda>row. row[0 := 0]) all_demands))
               else (all_loads, all_demands))
        in Inr (map2 (\<lambda>l d. \<lparr>loads = l, demands = d\<rparr>) all_loads all_demands))"

text \<open>
  The values the visit branch computes for one sample: \<open>L\<close> and \<open>D\<close> are the load and
  the demand at the chosen node in integer units.
\<close>

definition load_units :: "int \<Rightarrow> sample \<Rightarrow> nat \<Rightarrow> int" where
  "load_units max_load inst c = trunc (loads inst ! c * of_int max_load)"

definition demand_units :: "int \<Rightarrow> sample \<Rightarrow> nat \<Rightarrow> int" where
  "demand_units max_load inst c = trunc (demands inst ! c * of_int max_load)"

definition new_load_of :: "int \<Rightarrow> sample \<Rightarrow> nat \<Rightarrow> rat" where
  "new_load_of max_load inst c =
     max (of_int (load_units max_load inst c) - of_int (demand_units max_load inst c)) 0
       / of_int max_load"

definition new_demand_of :: "int \<Rightarrow> sample \<Rightarrow> nat \<Rightarrow> rat" where
  "new_demand_of max_load inst c =
     max (of_int (demand_units max_load inst c) - of_int (load_units max_load inst c)) 0
       / of_int max_load"

text \<open>The demand that \<open>scatter_\<close> writes at the chosen node of each sample.\<close>

definition scattered :: "int \<Rightarrow> sample list \<Rightarrow> nat list \<Rightarrow> rat list" where
  "scattered max_load dynamic chosen_idx =
     masked_scatter (map2 (\<lambda>inst c. demands inst ! c) dynamic chosen_idx)
       (map (\<lambda>c. c \<noteq> 0) chosen_idx)
       (map2 (new_demand_of max_load) dynamic chosen_idx)"

text \<open>
  The row of the result for one sample of a batch of \<open>n\<close>, given the demand written at
  its chosen node.
\<close>

definition row_result :: "int \<Rightarrow> nat \<Rightarrow> sample \<Rightarrow> nat \<Rightarrow> rat \<Rightarrow> sample" where
  "row_result max_load n inst c nd =
     (if c \<noteq> 0
      then \<lparr>loads = replicate (length (loads inst)) (new_load_of max_load inst c),
            demands = ((demands inst)[c := nd])[0 := new_load_of max_load inst c - 1]\<rparr>
      else \<lparr>loads = replicate (length (loads inst)) 1,
            demands = (if n = 1 then replicate (length (demands inst)) 0
                       else (demands inst)[0 := 0])\<rparr>)"

definition uniform :: "rat list \<Rightarrow> bool" where
  "uniform row = list_all (\<lambda>x. x = row ! 0) row"

section \<open>The unit conversion in float32\<close>

text \<open>
  The tensors hold 32-bit floats. A finite float32 is \<open>m * 2 ^ e\<close> with an integer
  \<open>\<bar>m\<bar> < 2 ^ 24\<close> and \<open>- 149 \<le> e \<le> 104\<close>; every operation returns the float
  nearest to the exact result, ties to the even significand. \<open>fl32\<close> is this rounding on
  the rationals: the magnitude is scaled by powers of two until it lies in
  \<open>[2 ^ 23, 2 ^ 24)\<close> (or the exponent range ends), rounded to an integer and scaled
  back. Overflow to infinity does not occur for loads and demands and is not modelled.
\<close>

definition round_even :: "rat \<Rightarrow> int" where
  "round_even x =
     (let f = \<lfloor>x\<rfloor>; r = x - of_int f
      in if r < 1 / 2 then f else if 1 / 2 < r then f + 1 else if even f then f else f + 1)"

fun norm_down :: "nat \<Rightarrow> rat \<Rightarrow> rat \<Rightarrow> rat \<times> rat" where
  "norm_down 0 a u = (a, u)"
| "norm_down (Suc n) a u = (if 2 ^ 23 \<le> a then (a, u) else norm_down n (2 * a) (u / 2))"

fun norm_up :: "nat \<Rightarrow> rat \<Rightarrow> rat \<Rightarrow> rat \<times> rat" where
  "norm_up 0 a u = (a, u)"
| "norm_up (Suc n) a u = (if a < 2 ^ 24 then (a, u) else norm_up n (a / 2) (2 * u))"

definition fl32 :: "rat \<Rightarrow> rat" where
  "fl32 x =
     (let (a, u) = (if \<bar>x\<bar> < 2 ^ 23 then norm_down 149 \<bar>x\<bar> 1 else norm_up 104 \<bar>x\<bar> 1)
      in sgn x * of_int (round_even a) * u)"

text \<open>
  \<open>k / self.max_load\<close> for an integer-valued float \<open>k\<close> (lines 42, 126 and 129), and
  \<open>(self.max_load * x).int()\<close> (lines 70, 122 and 123), each with one rounding.
\<close>

definition store32 :: "int \<Rightarrow> int \<Rightarrow> rat" where
  "store32 max_load k = fl32 (of_int k / of_int max_load)"

definition to_int32 :: "int \<Rightarrow> rat \<Rightarrow> int" where
  "to_int32 max_load x = trunc (fl32 (of_int max_load * x))"

text \<open>
  Lines 122 to 129 of update\_dynamic for one sample that visits a customer, from the stored
  load and the stored demand of the chosen node to the new stored load and demand.
\<close>

definition visit32 :: "int \<Rightarrow> rat \<Rightarrow> rat \<Rightarrow> rat \<times> rat" where
  "visit32 max_load load demand =
     (let load_int = of_int (trunc (fl32 (load * of_int max_load)));
          demand_int = of_int (trunc (fl32 (demand * of_int max_load)));
          new_load = fl32 (max (load_int - demand_int) 0 / of_int max_load);
          new_demand = fl32 (max (demand_int - load_int) 0 / of_int max_load)
      in (new_load, new_demand))"

text \<open>The specification's words: the same visit computed on integer units.\<close>

definition exact_visit :: "int \<Rightarrow> int \<Rightarrow> int \<times> int" where
  "exact_visit L D = (L - min L D, D - min L D)"

section \<open>reward\<close>

text \<open>
  \<open>static\<close> has shape \<open>(batch, feats, seq_len)\<close>: \<open>static[i]\<close> is a list of feature
  rows (two coordinates in this program), column 0 is the depot. Coordinates are reals.
  \<open>torch.gather\<close> refuses a tour index outside a row; the loop reads
  \<open>tour_indices[i]\<close> for every \<open>i\<close> below the batch size of \<open>static\<close>.
\<close>

definition reward_one :: "real list list \<Rightarrow> nat list \<Rightarrow> error + real" where
  "reward_one static_i tour_i =
     (if list_ex (\<lambda>row. list_ex (\<lambda>t. length row \<le> t) tour_i) static_i then Inl RuntimeError
      else if list_ex (\<lambda>row. row = []) static_i then Inl IndexError
      else
        let tour = map (\<lambda>t. map (\<lambda>row. row ! t) static_i) tour_i;
            start = map (\<lambda>row. row ! 0) static_i;
            y = [start] @ tour @ [start];
            dist = map2 (\<lambda>p q. sqrt (sum_list (map (\<lambda>d. d ^ 2) (map2 (\<lambda>a b. a - b) p q))))
                     (butlast y) (tl y)
        in Inr (sum_list dist))"

fun reward_loop :: "real list list list \<Rightarrow> nat list list \<Rightarrow> error + real list" where
  "reward_loop [] tours = Inr []"
| "reward_loop (s # ss) [] = Inl IndexError"
| "reward_loop (s # ss) (t # ts) =
     (case reward_one s t of
        Inl e \<Rightarrow> Inl e
      | Inr r \<Rightarrow> (case reward_loop ss ts of Inl e \<Rightarrow> Inl e | Inr rs \<Rightarrow> Inr (r # rs)))"

text \<open>
  The loop collects one tensor per sample in \<open>tour_len\<close>; \<open>torch.cat\<close> refuses an
  empty list, which is what the loop leaves for an empty batch.
\<close>

definition reward :: "real list list list \<Rightarrow> nat list list \<Rightarrow> error + real list" where
  "reward static tour_indices =
     (case reward_loop static tour_indices of
        Inl e \<Rightarrow> Inl e
      | Inr tour_len \<Rightarrow> if tour_len = [] then Inl RuntimeError else Inr tour_len)"

text \<open>
  The specification's words: the location of a node, the Euclidean distance of two points,
  and the length of a path as the sum of the distances of consecutive points.
\<close>

definition location :: "real list list \<Rightarrow> nat \<Rightarrow> real list" where
  "location static_i j = map (\<lambda>row. row ! j) static_i"

definition euclid :: "real list \<Rightarrow> real list \<Rightarrow> real" where
  "euclid p q = sqrt (\<Sum>(a, b)\<leftarrow>zip p q. (a - b) ^ 2)"

fun path_length :: "real list list \<Rightarrow> real" where
  "path_length (p # q # ps) = euclid p q + path_length (q # ps)"
| "path_length ps = 0"

definition in_range :: "real list list \<Rightarrow> nat list \<Rightarrow> bool" where
  "in_range static_i tour_i =
     list_all (\<lambda>row. row \<noteq> [] \<and> list_all (\<lambda>t. t < length row) tour_i) static_i"

section \<open>VehicleRoutingDataset.\_\_init\_\_\<close>

text \<open>
  The draws of the seeded generator are parameters: \<open>rand i f j\<close> is the coordinate drawn
  by \<open>torch.rand\<close> and \<open>randint i j\<close> the demand drawn by \<open>torch.randint\<close>. The only
  check of the source is \<open>max_load < max_demand\<close>. The library refuses a negative
  dimension, \<open>locations[:, :, 0]\<close> on an empty last dimension, \<open>max_load / float(max_load)\<close>
  at zero and an empty range of \<open>randint\<close>.
\<close>

record dataset =
  ds_num_samples :: int
  ds_max_load :: int
  ds_max_demand :: int
  ds_static :: "real list list list"
  ds_dynamic :: "sample list"

definition init ::
  "(nat \<Rightarrow> nat \<Rightarrow> nat \<Rightarrow> real) \<Rightarrow> (nat \<Rightarrow> nat \<Rightarrow> int) \<Rightarrow> int \<Rightarrow> int \<Rightarrow> int \<Rightarrow> int
     \<Rightarrow> error + dataset" where
  "init rand randint num_samples input_size max_load max_demand =
     (if max_load < max_demand then Inl ValueError
      else if num_samples < 0 \<or> input_size + 1 < 0 then Inl RuntimeError
      else if input_size + 1 = 0 then Inl IndexError
      else if max_load = 0 then Inl ZeroDivisionError
      else if max_demand + 1 \<le> 1 then Inl RuntimeError
      else
        let n = nat num_samples;
            len = nat (input_size + 1);
            locations = map (\<lambda>i. map (\<lambda>f. map (\<lambda>j. rand i f j) [0..<len]) [0..<2]) [0..<n];
            locations = map (map (\<lambda>row. row[0 := 0])) locations;
            lds = map (\<lambda>i. replicate len (of_int max_load / of_int max_load)) [0..<n];
            dms = map (\<lambda>i. map (\<lambda>j. of_int (randint i j)) [0..<len]) [0..<n];
            dms = map (map (\<lambda>d. d / of_int max_load)) dms;
            dms = map (\<lambda>row. row[0 := 0]) dms
        in Inr \<lparr>ds_num_samples = num_samples, ds_max_load = max_load,
                ds_max_demand = max_demand, ds_static = locations,
                ds_dynamic = map2 (\<lambda>l d. \<lparr>loads = l, demands = d\<rparr>) lds dms\<rparr>)"

section \<open>Tensors and masks\<close>

lemma assign_where_guard:
  "length m = length rows \<Longrightarrow>
   (if any m then assign_where m f rows else rows) = assign_where m f rows"
  by (induction m rows rule: list_induct2) (auto simp: any_def assign_where_def)

lemma assign_where_length [simp]:
  "length m = length rows \<Longrightarrow> length (assign_where m f rows) = length rows"
  by (simp add: assign_where_def)

lemma assign_where_nth:
  "length m = length rows \<Longrightarrow> i < length rows \<Longrightarrow>
   assign_where m f rows ! i = (if m ! i then f (rows ! i) else rows ! i)"
  by (simp add: assign_where_def)

lemma any_nth: "any bs = (\<exists>i<length bs. bs ! i)"
  by (auto simp: any_def list_ex_length)

lemma rectangularD:
  "rectangular S dynamic \<Longrightarrow> i < length dynamic \<Longrightarrow>
   length (loads (dynamic ! i)) = S \<and> length (demands (dynamic ! i)) = S"
  by (simp add: rectangular_def list_all_length)

lemma is_tensor_rectangular: "rectangular S dynamic \<Longrightarrow> is_tensor dynamic"
  by (cases dynamic) (auto simp: is_tensor_def rectangular_def seq_len_def)

lemma seq_len_rectangular:
  "rectangular S dynamic \<Longrightarrow> dynamic \<noteq> [] \<Longrightarrow> seq_len dynamic = S"
  by (cases dynamic) (auto simp: rectangular_def seq_len_def)

lemma float_of_sum_pos: "(float_of a + float_of b > 0) = (a \<or> b)"
  by (simp add: float_of_def)

lemma sum_list_nonzero: "sum_list xs \<noteq> (0::int) \<Longrightarrow> \<exists>x\<in>set xs. x \<noteq> 0"
  by (induction xs) auto

lemma sum_list_pos_nonzero:
  "list_all (\<lambda>x. 0 \<le> x) xs \<Longrightarrow> \<exists>x\<in>set xs. x \<noteq> 0 \<Longrightarrow> sum_list xs \<noteq> (0::int)"
proof (induction xs)
  case Nil
  then show ?case by simp
next
  case (Cons x xs)
  have "0 \<le> sum_list xs" using Cons.prems(1) by (simp add: list_all_iff sum_list_nonneg)
  then show ?case using Cons by (cases "x = 0") auto
qed

section \<open>What update\_mask returns\<close>

lemma all_served_short: "rectangular S dynamic \<Longrightarrow> S \<le> 1 \<Longrightarrow> all_served c dynamic"
  by (auto simp: rectangular_def all_served_def customers_served_def list_all_iff)

lemma served_eq:
  "list_all (\<lambda>row. list_all (\<lambda>d. d = 0) (drop 1 row))
     (map (\<lambda>inst. map (to_int c) (demands inst)) dynamic) = all_served c dynamic"
  by (simp add: all_served_def customers_served_def list_all_iff drop_map)

lemma update_mask_finished:
  assumes rect: "rectangular S dynamic" and fin: "all_served c dynamic"
  shows "update_mask c mk dynamic chosen_idx = Inr (map (\<lambda>inst. replicate S 0) dynamic)"
proof -
  have z: "map (map (\<lambda>d. rat_of_int d * 0)) (map (\<lambda>inst. map (to_int c) (demands inst)) dynamic)
            = map (\<lambda>inst. replicate S 0) dynamic"
    using rect by (induction dynamic) (simp_all add: rectangular_def map_replicate_const)
  show ?thesis
    unfolding update_mask_def Let_def z
    using is_tensor_rectangular [OF rect] fin
    by (simp only: served_eq simp_thms if_True if_False)
qed

lemma update_mask_unfinished:
  assumes rect: "rectangular S dynamic"
      and unf: "\<not> all_served c dynamic"
      and len: "length chosen = length dynamic"
  shows "update_mask c mk dynamic (Some chosen) = Inr (map2 (row_mask c) dynamic chosen)"
proof -
  have S: "2 \<le> S" using all_served_short [OF rect, of c] unf by linarith
  have tens: "is_tensor dynamic" by (rule is_tensor_rectangular [OF rect])
  let ?lds = "map (\<lambda>inst. map (to_int c) (loads inst)) dynamic"
  let ?dms = "map (\<lambda>inst. map (to_int c) (demands inst)) dynamic"
  let ?rh = "map (\<lambda>c. c \<noteq> 0) chosen"
  let ?m0 = "map (map (\<lambda>d. d \<noteq> 0)) ?dms"
  let ?m1 = "assign_where ?rh (\<lambda>row. row[0 := True]) ?m0"
  let ?m2 = "assign_where (map Not ?rh) (\<lambda>row. row[0 := False]) ?m1"
  let ?comb = "map2 (\<lambda>a b. a + b > 0) (map (\<lambda>row. float_of (row ! 0 = 0)) ?lds)
                 (map (\<lambda>row. float_of (sum_list (drop 1 row) = 0)) ?dms)"
  let ?m3 = "assign_where ?comb
               (\<lambda>row. take 1 (row[0 := True]) @ replicate (length row - 1) False) ?m2"
  have nf: "\<not> list_all (\<lambda>row. list_all (\<lambda>d. d = 0) (drop 1 row)) ?dms"
    unfolding served_eq by (rule unf)
  have g1: "(if any ?rh then ?m1 else ?m0) = ?m1"
    by (rule assign_where_guard) (simp add: len)
  have g2: "(if any (map Not ?rh) then ?m2 else ?m1) = ?m2"
    by (rule assign_where_guard) (simp add: len)
  have g3: "(if any ?comb then ?m3 else ?m2) = ?m3"
    by (rule assign_where_guard) (simp add: len)
  have eq: "update_mask c mk dynamic (Some chosen) = Inr (map (map float_of) ?m3)"
    unfolding update_mask_def Let_def option.case g1 g2 g3
    using tens nf len by simp
  have "map (map float_of) ?m3 = map2 (row_mask c) dynamic chosen"
  proof (rule nth_equalityI)
    show "length (map (map float_of) ?m3) = length (map2 (row_mask c) dynamic chosen)"
      using len by simp
  next
    fix i assume "i < length (map (map float_of) ?m3)"
    then have i: "i < length dynamic" using len by simp
    have L: "length (loads (dynamic ! i)) = S" "length (demands (dynamic ! i)) = S"
      using rectangularD [OF rect i] by simp_all
    then obtain d ds where d: "demands (dynamic ! i) = d # ds"
      using S by (cases "demands (dynamic ! i)") auto
    show "map (map float_of) ?m3 ! i = map2 (row_mask c) dynamic chosen ! i"
      using i len L S
      by (auto simp: assign_where_nth row_mask_def Let_def float_of_sum_pos d map_update
                     map_replicate_const float_of_def)
  qed
  with eq show ?thesis by simp
qed

lemma update_mask_cases:
  assumes rect: "rectangular S dynamic"
  shows "update_mask c mk dynamic chosen_idx =
         (if all_served c dynamic then Inr (map (\<lambda>inst. replicate S 0) dynamic)
          else case chosen_idx of
                 None \<Rightarrow> Inl AttributeError
               | Some chosen \<Rightarrow>
                   if length chosen \<noteq> length dynamic then Inl NotModelled
                   else Inr (map2 (row_mask c) dynamic chosen))"
proof (cases "all_served c dynamic")
  case True
  then show ?thesis using update_mask_finished [OF rect True] by simp
next
  case unf: False
  have tens: "is_tensor dynamic" by (rule is_tensor_rectangular [OF rect])
  have nf: "\<not> list_all (\<lambda>row. list_all (\<lambda>d. d = 0) (drop 1 row))
                 (map (\<lambda>inst. map (to_int c) (demands inst)) dynamic)"
    unfolding served_eq by (rule unf)
  show ?thesis
  proof (cases chosen_idx)
    case None
    then show ?thesis
      unfolding update_mask_def Let_def using tens nf unf by simp
  next
    case (Some chosen)
    show ?thesis
    proof (cases "length chosen = length dynamic")
      case True
      then show ?thesis using update_mask_unfinished [OF rect unf True] unf Some by simp
    next
      case False
      then show ?thesis
        unfolding update_mask_def Let_def Some option.case using tens nf unf by simp
    qed
  qed
qed

lemma same_but_marker_rect:
  "same_but_marker d d' \<Longrightarrow> rectangular S d' = rectangular S d"
  unfolding same_but_marker_def rectangular_def
  by (induction d d' rule: list_all2_induct) auto

lemma same_but_marker_seq_len: "same_but_marker d d' \<Longrightarrow> seq_len d' = seq_len d"
  unfolding same_but_marker_def seq_len_def
  by (cases d; cases d') auto

lemma same_but_marker_served:
  "same_but_marker d d' \<Longrightarrow> all_served c d' = all_served c d"
  unfolding same_but_marker_def all_served_def customers_served_def
  by (induction d d' rule: list_all2_induct) auto

lemma update_first_map:
  "length xs = length ys \<Longrightarrow> drop 1 xs = drop 1 ys \<Longrightarrow> (map f xs)[0 := v] = (map f ys)[0 := v]"
  by (cases xs; cases ys) auto

lemma row_mask_marker:
  assumes "loads a = loads b" "length (demands a) = length (demands b)"
          "drop 1 (demands a) = drop 1 (demands b)"
  shows "row_mask c a k = row_mask c b k"
proof -
  have "drop 1 (map (to_int c) (demands a)) = drop 1 (map (to_int c) (demands b))"
    using assms(3) by (simp only: drop_map)
  moreover have "(map (\<lambda>x. float_of (x \<noteq> 0)) (map (to_int c) (demands a)))[0 := v]
               = (map (\<lambda>x. float_of (x \<noteq> 0)) (map (to_int c) (demands b)))[0 := v]" for v
    unfolding map_map by (rule update_first_map [OF assms(2,3)])
  ultimately show ?thesis
    unfolding row_mask_def Let_def using assms(1,2) by simp
qed

lemma same_but_marker_rows:
  "same_but_marker d d' \<Longrightarrow> map2 (row_mask c) d' chosen = map2 (row_mask c) d chosen"
  unfolding same_but_marker_def
proof (induction d d' arbitrary: chosen rule: list_all2_induct)
  case Nil
  then show ?case by simp
next
  case (Cons a d b d')
  then show ?case
    by (cases chosen) (simp_all add: row_mask_marker [of b a])
qed

section \<open>Claims about update\_mask\<close>

text \<open>
  C3. In a batch that is not finished as a whole, a sample whose load is 0 in integer units,
  or whose customer demands sum to 0, gets the mask row with the depot legal and every
  customer illegal, whatever the default legality and the last chosen node were.
\<close>

theorem forced_return_to_depot:
  assumes rect: "rectangular S dynamic"
      and len: "length chosen = length dynamic"
      and i: "i < length dynamic"
      and unf: "\<not> all_served max_load dynamic"
      and forced: "to_int max_load (loads (dynamic ! i) ! 0) = 0
                   \<or> sum_list (map (to_int max_load) (drop 1 (demands (dynamic ! i)))) = 0"
  shows "\<exists>m. update_mask max_load mask_arg dynamic (Some chosen) = Inr m
             \<and> m ! i = 1 # replicate (S - 1) 0"
proof -
  have S: "2 \<le> S" using all_served_short [OF rect, of max_load] unf by linarith
  have L: "length (loads (dynamic ! i)) = S" "length (demands (dynamic ! i)) = S"
    using rectangularD [OF rect i] by simp_all
  have "row_mask max_load (dynamic ! i) (chosen ! i) = 1 # replicate (S - 1) 0"
    using forced L S by (auto simp: row_mask_def Let_def drop_map)
  then show ?thesis
    using update_mask_unfinished [OF rect unf len] i len by simp
qed

theorem forced_return_to_depot_witness:
  "rectangular 2 [\<lparr>loads = [1, 1], demands = [0, 0]\<rparr>, \<lparr>loads = [1, 1], demands = [0, 1 / 2]\<rparr>]
   \<and> \<not> all_served 10 [\<lparr>loads = [1, 1], demands = [0, 0]\<rparr>, \<lparr>loads = [1, 1], demands = [0, 1 / 2]\<rparr>]
   \<and> sum_list (map (to_int 10) (drop 1 (demands \<lparr>loads = [1, 1], demands = [0, 0]\<rparr>))) = 0
   \<and> (\<exists>m. update_mask 10 [] [\<lparr>loads = [1, 1], demands = [0, 0]\<rparr>,
                              \<lparr>loads = [1, 1], demands = [0, 1 / 2]\<rparr>] (Some [1, 0]) = Inr m
          \<and> m ! 0 = [1, 0])"
proof -
  let ?d = "[\<lparr>loads = [1, 1], demands = [0, 0]\<rparr>, \<lparr>loads = [1, 1], demands = [0, 1 / 2::rat]\<rparr>]"
  have h1: "rectangular 2 ?d" by (simp add: rectangular_def)
  have h2: "length [1, 0::nat] = length ?d" by simp
  have h3: "0 < length ?d" by simp
  have h4: "\<not> all_served 10 ?d"
    by (simp add: all_served_def customers_served_def to_int_def trunc_def)
  have h5: "to_int 10 (loads (?d ! 0) ! 0) = 0
            \<or> sum_list (map (to_int 10) (drop 1 (demands (?d ! 0)))) = 0"
    by (simp add: to_int_def trunc_def)
  have h6: "sum_list (map (to_int 10) (drop 1 (demands \<lparr>loads = [1, 1], demands = [0, 0]\<rparr>))) = 0"
    by (simp add: to_int_def trunc_def)
  from forced_return_to_depot [OF h1 h2 h3 h4 h5, of "[]"] h1 h4 h6
  show ?thesis by simp
qed


text \<open>
  C1, as the code has it. The early return is taken for the batch as a whole, so a row of the
  mask is all zero if and only if every sample of the batch has all its customer demands at 0
  in integer units. A served sample in a batch that is not finished keeps the depot legal.
\<close>

theorem mask_all_zero_iff_batch_served:
  assumes rect: "rectangular S dynamic"
      and len: "length chosen = length dynamic"
      and i: "i < length dynamic"
  shows "\<exists>m. update_mask max_load mask_arg dynamic (Some chosen) = Inr m
             \<and> length m = length dynamic
             \<and> (list_all (\<lambda>x. x = 0) (m ! i) \<longleftrightarrow> all_served max_load dynamic)"
proof (cases "all_served max_load dynamic")
  case True
  then show ?thesis
    using update_mask_finished [OF rect True] i by (simp add: list_all_iff)
next
  case False
  have S: "2 \<le> S" using all_served_short [OF rect, of max_load] False by linarith
  have L: "length (loads (dynamic ! i)) = S" "length (demands (dynamic ! i)) = S"
    using rectangularD [OF rect i] by simp_all
  let ?d = "map (to_int max_load) (demands (dynamic ! i))"
  have "\<not> list_all (\<lambda>x. x = 0) (row_mask max_load (dynamic ! i) (chosen ! i))"
  proof (cases "map (to_int max_load) (loads (dynamic ! i)) ! 0 = 0 \<or> sum_list (drop 1 ?d) = 0")
    case True
    then show ?thesis by (simp add: row_mask_def Let_def)
  next
    case nc: False
    then obtain x where x: "x \<in> set (drop 1 ?d)" "x \<noteq> 0"
      using sum_list_nonzero by blast
    then obtain j where j: "j < length (drop 1 ?d)" "drop 1 ?d ! j = x"
      by (metis in_set_conv_nth)
    then have j': "Suc j < length ?d" "?d ! Suc j = x" by auto
    let ?r = "(map (\<lambda>x. float_of (x \<noteq> 0)) ?d)[0 := float_of (chosen ! i \<noteq> 0)]"
    have "?r ! Suc j = 1" using j' x(2) by (simp add: float_of_def)
    moreover have "Suc j < length ?r" using j' by simp
    ultimately have "\<not> list_all (\<lambda>x. x = 0) ?r"
      unfolding list_all_length by (metis zero_neq_one)
    then show ?thesis using nc by (simp add: row_mask_def Let_def)
  qed
  then show ?thesis
    using update_mask_unfinished [OF rect False len] i len False by simp
qed

theorem mask_all_zero_iff_batch_served_witness:
  "rectangular 2 [\<lparr>loads = [1, 1], demands = [0, 0]\<rparr>, \<lparr>loads = [1, 1], demands = [0, 1 / 2]\<rparr>]
   \<and> (\<exists>m. update_mask 10 [] [\<lparr>loads = [1, 1], demands = [0, 0]\<rparr>,
                              \<lparr>loads = [1, 1], demands = [0, 1 / 2]\<rparr>] (Some [1, 0]) = Inr m
          \<and> length m = 2
          \<and> (list_all (\<lambda>x. x = 0) (m ! 0)
               \<longleftrightarrow> all_served 10 [\<lparr>loads = [1, 1], demands = [0, 0]\<rparr>,
                                      \<lparr>loads = [1, 1], demands = [0, 1 / 2]\<rparr>]))"
proof -
  let ?d = "[\<lparr>loads = [1, 1], demands = [0, 0]\<rparr>, \<lparr>loads = [1, 1], demands = [0, 1 / 2::rat]\<rparr>]"
  have h1: "rectangular 2 ?d" by (simp add: rectangular_def)
  have h2: "length [1, 0::nat] = length ?d" by simp
  have h3: "0 < length ?d" by simp
  from mask_all_zero_iff_batch_served [OF h1 h2 h3, of 10 "[]"] h1
  show ?thesis by (simp add: numeral_2_eq_2)
qed

text \<open>
  C1 as stated fails: sample 0 below has no customer demand left, sample 1 has, and the
  mask row of sample 0 is \<open>[1, 0]\<close>, not all zero.
\<close>

theorem mask_all_zero_counterexample:
  "customers_served 10 \<lparr>loads = [1, 1], demands = [0, 0]\<rparr>
   \<and> update_mask 10 [] [\<lparr>loads = [1, 1], demands = [0, 0]\<rparr>,
                         \<lparr>loads = [1, 1], demands = [0, 1 / 2]\<rparr>] (Some [1, 0])
       = Inr [[1, 0], [0, 1]]"
  by (simp add: update_mask_def customers_served_def is_tensor_def rectangular_def seq_len_def
        to_int_def trunc_def any_def assign_where_def float_of_def)

text \<open>
  C4. If the last chosen node of a sample was the depot, its load is positive in integer
  units and some customer demand is nonzero, the depot entry of its mask row is 0. The
  customer demands of a state are not negative (they start in \<open>[1, max_demand]\<close> and
  are only ever replaced by a clamped difference).
\<close>

theorem no_back_to_back_depot:
  assumes rect: "rectangular S dynamic"
      and len: "length chosen = length dynamic"
      and i: "i < length dynamic"
      and prev: "chosen ! i = 0"
      and load: "0 < to_int max_load (loads (dynamic ! i) ! 0)"
      and nonneg: "list_all (\<lambda>d. 0 \<le> to_int max_load d) (drop 1 (demands (dynamic ! i)))"
      and remains: "\<not> customers_served max_load (dynamic ! i)"
  shows "\<exists>m. update_mask max_load mask_arg dynamic (Some chosen) = Inr m \<and> m ! i ! 0 = 0"
proof -
  have unf: "\<not> all_served max_load dynamic"
    using remains i by (auto simp: all_served_def list_all_length)
  have S: "2 \<le> S" using all_served_short [OF rect, of max_load] unf by linarith
  have L: "length (loads (dynamic ! i)) = S" "length (demands (dynamic ! i)) = S"
    using rectangularD [OF rect i] by simp_all
  let ?d = "map (to_int max_load) (demands (dynamic ! i))"
  have "list_all (\<lambda>x. 0 \<le> x) (drop 1 ?d)"
    using nonneg by (simp add: list_all_iff drop_map)
  moreover have "\<exists>x\<in>set (drop 1 ?d). x \<noteq> 0"
    using remains by (auto simp: customers_served_def list_all_iff drop_map)
  ultimately have "sum_list (drop 1 ?d) \<noteq> 0" by (rule sum_list_pos_nonzero)
  then have "row_mask max_load (dynamic ! i) (chosen ! i) ! 0 = 0"
    using load prev L S by (simp add: row_mask_def Let_def float_of_def)
  then show ?thesis
    using update_mask_unfinished [OF rect unf len] i len by simp
qed

theorem no_back_to_back_depot_witness:
  "rectangular 3 [\<lparr>loads = [1, 1, 1], demands = [0, 3 / 10, 0]\<rparr>]
   \<and> 0 < to_int 10 (loads \<lparr>loads = [1, 1, 1], demands = [0, 3 / 10, 0]\<rparr> ! 0)
   \<and> list_all (\<lambda>d. 0 \<le> to_int 10 d) (drop 1 (demands \<lparr>loads = [1, 1, 1], demands = [0, 3 / 10, 0]\<rparr>))
   \<and> \<not> customers_served 10 \<lparr>loads = [1, 1, 1], demands = [0, 3 / 10, 0]\<rparr>
   \<and> (\<exists>m. update_mask 10 [] [\<lparr>loads = [1, 1, 1], demands = [0, 3 / 10, 0]\<rparr>] (Some [0]) = Inr m
          \<and> m ! 0 ! 0 = 0)"
proof -
  let ?d = "[\<lparr>loads = [1, 1, 1], demands = [0, 3 / 10, 0::rat]\<rparr>]"
  have h1: "rectangular 3 ?d" by (simp add: rectangular_def)
  have h2: "length [0::nat] = length ?d" by simp
  have h3: "0 < length ?d" by simp
  have h4: "[0::nat] ! 0 = 0" by simp
  have h5: "0 < to_int 10 (loads (?d ! 0) ! 0)" by (simp add: to_int_def trunc_def)
  have h6: "list_all (\<lambda>d. 0 \<le> to_int 10 d) (drop 1 (demands (?d ! 0)))"
    by (simp add: to_int_def trunc_def)
  have h7: "\<not> customers_served 10 (?d ! 0)"
    by (simp add: customers_served_def to_int_def trunc_def)
  from no_back_to_back_depot [OF h1 h2 h3 h4 h5 h6 h7, of "[]"] h1 h5 h6 h7
  show ?thesis by simp
qed

text \<open>
  C8. Two batches that differ only in slot 0 of the demand rows get the same result from
  update\_mask, for the same last chosen indices: the depot marker is never read.
\<close>

theorem mask_ignores_depot_marker:
  assumes same: "same_but_marker dynamic dynamic'"
  shows "update_mask max_load mask_arg dynamic' chosen_idx
         = update_mask max_load mask_arg dynamic chosen_idx"
proof (cases "is_tensor dynamic")
  case False
  moreover have "\<not> is_tensor dynamic'"
    using False same_but_marker_rect [OF same] same_but_marker_seq_len [OF same]
    by (simp add: is_tensor_def)
  ultimately show ?thesis by (simp add: update_mask_def)
next
  case True
  then have r: "rectangular (seq_len dynamic) dynamic" by (simp add: is_tensor_def)
  then have r': "rectangular (seq_len dynamic) dynamic'"
    using same_but_marker_rect [OF same] by simp
  have len: "length dynamic' = length dynamic"
    using same by (simp add: same_but_marker_def list_all2_lengthD)
  have m: "map (\<lambda>inst. replicate (seq_len dynamic) (0::rat)) dynamic'
           = map (\<lambda>inst. replicate (seq_len dynamic) 0) dynamic"
    using len by (simp add: map_replicate_const)
  show ?thesis
    unfolding update_mask_cases [OF r] update_mask_cases [OF r']
    using same_but_marker_served [OF same] same_but_marker_rows [OF same] len m
    by (simp split: option.split)
qed

theorem mask_ignores_depot_marker_witness:
  "same_but_marker [\<lparr>loads = [2 / 5, 2 / 5, 2 / 5], demands = [- (3 / 5), 0, 7 / 10]\<rparr>]
                   [\<lparr>loads = [2 / 5, 2 / 5, 2 / 5], demands = [9, 0, 7 / 10]\<rparr>]
   \<and> update_mask 10 [] [\<lparr>loads = [2 / 5, 2 / 5, 2 / 5], demands = [9, 0, 7 / 10]\<rparr>] (Some [1])
     = update_mask 10 [] [\<lparr>loads = [2 / 5, 2 / 5, 2 / 5], demands = [- (3 / 5), 0, 7 / 10]\<rparr>] (Some [1])"
proof -
  have h: "same_but_marker [\<lparr>loads = [2 / 5, 2 / 5, 2 / 5], demands = [- (3 / 5), 0, 7 / 10]\<rparr>]
                   [\<lparr>loads = [2 / 5, 2 / 5, 2 / 5], demands = [9, 0, 7 / 10]\<rparr>]"
    by (simp add: same_but_marker_def)
  from h mask_ignores_depot_marker [OF h, of 10 "[]" "Some [1]"]
  show ?thesis by (rule conjI)
qed

section \<open>What update\_dynamic returns\<close>

lemma masked_scatter_length [simp]: "length (masked_scatter self m source) = length self"
  by (simp add: masked_scatter_def)

lemma masked_scatter_nth:
  "i < length self \<Longrightarrow>
   masked_scatter self m source ! i =
     (if m ! i then source ! length (filter (\<lambda>b. b) (take i m)) else self ! i)"
  by (simp add: masked_scatter_def)

lemma rank_less: "i < n \<Longrightarrow> length (filter P (take i m)) < n"
  by (rule le_less_trans [OF length_filter_le]) simp

lemma update_dynamic_rows:
  assumes rect: "rectangular S dynamic"
      and len: "length chosen = length dynamic"
      and rng: "\<forall>c\<in>set chosen. c < S"
  shows "update_dynamic c dynamic chosen =
         Inr (map (\<lambda>i. row_result c (length dynamic) (dynamic ! i) (chosen ! i) (scattered c dynamic chosen ! i))
                [0..<length dynamic])"
proof (cases "length dynamic = 1")
  case True
  then obtain a where a: "dynamic = [a]" by (cases dynamic) auto
  with len obtain k where k: "chosen = [k]" by (cases chosen) auto
  have sz: "length (loads a) = S" "length (demands a) = S" "k < S"
    using rect rng by (simp_all add: a k rectangular_def)
  show ?thesis
    unfolding a k update_dynamic_def Let_def scattered_def
    using sz
    by (simp add: is_tensor_def rectangular_def seq_len_def any_def assign_where_def
          masked_scatter_def row_result_def new_load_of_def new_demand_of_def load_units_def
          demand_units_def float_of_def)
next
  case n1: False
  have tens: "is_tensor dynamic" by (rule is_tensor_rectangular [OF rect])
  have inr: "\<not> list_ex (\<lambda>c. seq_len dynamic \<le> c) chosen"
  proof (cases "dynamic = []")
    case True then show ?thesis using len by simp
  next
    case False then show ?thesis
      using rng seq_len_rectangular [OF rect] by (auto simp: list_ex_iff)
  qed
  have L: "\<And>i. i < length dynamic \<Longrightarrow>
             length (loads (dynamic ! i)) = S \<and> length (demands (dynamic ! i)) = S
             \<and> chosen ! i < S"
    using rectangularD [OF rect] rng len by (metis nth_mem)
  have nv: "\<not> any (map (\<lambda>c. c \<noteq> 0) chosen) \<Longrightarrow> i < length dynamic \<Longrightarrow> chosen ! i = 0" for i
    using len by (auto simp: any_nth)
  have nd: "\<not> any (map (\<lambda>c. c = 0) chosen) \<Longrightarrow> i < length dynamic \<Longrightarrow> chosen ! i \<noteq> 0" for i
    using len by (auto simp: any_nth)
  show ?thesis
  proof (cases "any (map (\<lambda>c. c \<noteq> 0) chosen)")
    case v: True
    show ?thesis
    proof (cases "any (map (\<lambda>c. c = 0) chosen)")
      case d: True
      show ?thesis
        unfolding update_dynamic_def Let_def scattered_def
        using tens inr len v d n1
        apply simp
        apply (rule nth_equalityI)
         apply simp
        apply (simp add: assign_where_nth row_result_def L new_load_of_def new_demand_of_def
                 load_units_def demand_units_def float_of_def masked_scatter_nth rank_less)
        done
    next
      case d: False
      show ?thesis
        unfolding update_dynamic_def Let_def scattered_def
        using tens inr len v d n1
        apply simp
        apply (rule nth_equalityI)
         apply simp
        apply (simp add: assign_where_nth row_result_def L nd new_load_of_def new_demand_of_def
                 load_units_def demand_units_def float_of_def masked_scatter_nth rank_less)
        done
    qed
  next
    case v: False
    show ?thesis
    proof (cases "any (map (\<lambda>c. c = 0) chosen)")
      case d: True
      show ?thesis
        unfolding update_dynamic_def Let_def scattered_def
        using tens inr len v d n1
        apply simp
        apply (rule nth_equalityI)
         apply simp
        apply (simp add: assign_where_nth row_result_def L nv n1)
        done
    next
      case d: False
      have "dynamic = []" using nv [OF v] nd [OF d] by (cases dynamic) auto
      then show ?thesis
        unfolding update_dynamic_def Let_def
        using tens inr len v d by simp
    qed
  qed
qed

lemma update_dynamic_success:
  assumes ok: "update_dynamic c dynamic chosen = Inr dynamic'"
  shows "rectangular (seq_len dynamic) dynamic \<and> length chosen = length dynamic
         \<and> (\<forall>k\<in>set chosen. k < seq_len dynamic)"
proof -
  have "is_tensor dynamic" "length chosen = length dynamic"
       "\<not> list_ex (\<lambda>c. seq_len dynamic \<le> c) chosen"
    using ok by (auto simp: update_dynamic_def split: if_splits)
  then show ?thesis by (auto simp: is_tensor_def list_ex_iff)
qed

lemma uniform_replicate: "uniform (replicate n v)"
  by (cases n) (simp_all add: uniform_def list_all_iff)

lemma row_result_uniform: "uniform (loads (row_result c n inst k nd))"
  by (simp add: row_result_def uniform_replicate)

lemma init_dynamic:
  assumes "init rand randint num_samples input_size max_load max_demand = Inr ds"
  shows "list_all (\<lambda>s. loads s = replicate (nat (input_size + 1)) 1) (ds_dynamic ds)"
  using assms unfolding init_def Let_def
  by (auto simp: list_all_iff in_set_zip split: if_splits)

lemma new_load_min:
  "new_load_of c inst k
   = of_int (load_units c inst k - min (load_units c inst k) (demand_units c inst k)) / of_int c"
  by (simp add: new_load_of_def min_def max_def)

lemma new_demand_min:
  "new_demand_of c inst k
   = of_int (demand_units c inst k - min (load_units c inst k) (demand_units c inst k)) / of_int c"
  by (simp add: new_demand_of_def min_def max_def)

lemma rank_all_set: "\<forall>k<i. m ! k \<Longrightarrow> i \<le> length m \<Longrightarrow> length (filter (\<lambda>b. b) (take i m)) = i"
proof -
  assume a: "\<forall>k<i. m ! k" and b: "i \<le> length m"
  have "filter (\<lambda>b. b) (take i m) = take i m"
    using a b by (auto simp: filter_id_conv in_set_conv_nth)
  then show ?thesis using b by simp
qed

lemma scattered_after_visits:
  assumes len: "length chosen = length dynamic"
      and i: "i < length dynamic"
      and before: "\<forall>k\<le>i. chosen ! k \<noteq> 0"
  shows "scattered c dynamic chosen ! i = new_demand_of c (dynamic ! i) (chosen ! i)"
proof -
  have "length (filter (\<lambda>b. b) (take i (map (\<lambda>c. c \<noteq> 0) chosen))) = i"
    using before i len by (intro rank_all_set) auto
  then show ?thesis
    using before i len by (simp add: scattered_def masked_scatter_nth)
qed

lemma update_dynamic_row:
  assumes rect: "rectangular S dynamic"
      and len: "length chosen = length dynamic"
      and rng: "\<forall>k\<in>set chosen. k < S"
      and i: "i < length dynamic"
  shows "\<exists>dynamic'. update_dynamic c dynamic chosen = Inr dynamic'
           \<and> dynamic' ! i = row_result c (length dynamic) (dynamic ! i) (chosen ! i) (scattered c dynamic chosen ! i)"
  using update_dynamic_rows [OF rect len rng] i by simp

lemma update_dynamic_frame:
  assumes rect: "rectangular S dynamic"
      and len: "length chosen = length dynamic"
      and rng: "\<forall>k\<in>set chosen. k < S"
      and i: "i < length dynamic"
      and visit: "chosen ! i \<noteq> 0 \<or> length dynamic \<noteq> 1"
      and j: "j \<noteq> 0" "j \<noteq> chosen ! i"
  shows "\<exists>dynamic'. update_dynamic c dynamic chosen = Inr dynamic'
           \<and> demands (dynamic' ! i) ! j = demands (dynamic ! i) ! j"
  using update_dynamic_row [OF rect len rng i, of c] j visit by (auto simp: row_result_def)

text \<open>
  A customer visit, per sample: the load row and the depot marker are computed from the
  sample's own load and demand; the demand at the chosen node is the scattered value, which
  is the sample's own new demand when no sample before it in the batch visits the depot.
\<close>

lemma update_dynamic_customer_visit:
  assumes rect: "rectangular S dynamic"
      and len: "length chosen = length dynamic"
      and rng: "\<forall>k\<in>set chosen. k < S"
      and i: "i < length dynamic"
      and visit: "chosen ! i \<noteq> 0"
  shows "\<exists>dynamic'. update_dynamic c dynamic chosen = Inr dynamic'
           \<and> loads (dynamic' ! i) = replicate S (new_load_of c (dynamic ! i) (chosen ! i))
           \<and> demands (dynamic' ! i) ! 0 = new_load_of c (dynamic ! i) (chosen ! i) - 1
           \<and> demands (dynamic' ! i) ! (chosen ! i) = scattered c dynamic chosen ! i
           \<and> ((\<forall>k\<le>i. chosen ! k \<noteq> 0) \<longrightarrow>
                 demands (dynamic' ! i) ! (chosen ! i)
                 = new_demand_of c (dynamic ! i) (chosen ! i))"
proof -
  have L: "length (loads (dynamic ! i)) = S" "length (demands (dynamic ! i)) = S"
    using rectangularD [OF rect i] by simp_all
  have k: "chosen ! i < S" using rng i len by (metis nth_mem)
  have pos: "0 < length (demands (dynamic ! i))" using k L by simp
  obtain dynamic' where ok: "update_dynamic c dynamic chosen = Inr dynamic'"
    and row: "dynamic' ! i
              = row_result c (length dynamic) (dynamic ! i) (chosen ! i) (scattered c dynamic chosen ! i)"
    using update_dynamic_row [OF rect len rng i, of c] by blast
  have a: "loads (dynamic' ! i) = replicate S (new_load_of c (dynamic ! i) (chosen ! i))"
    using visit L by (simp add: row row_result_def)
  have b: "demands (dynamic' ! i) ! 0 = new_load_of c (dynamic ! i) (chosen ! i) - 1"
    using visit pos by (simp add: row row_result_def)
  have d: "demands (dynamic' ! i) ! (chosen ! i) = scattered c dynamic chosen ! i"
    using visit k L by (simp add: row row_result_def)
  have e: "(\<forall>k\<le>i. chosen ! k \<noteq> 0) \<longrightarrow>
             demands (dynamic' ! i) ! (chosen ! i) = new_demand_of c (dynamic ! i) (chosen ! i)"
    using scattered_after_visits [OF len i, of c] d by simp
  show ?thesis using ok a b d e by blast
qed

lemma to_int_nonneg: "0 \<le> c \<Longrightarrow> 0 \<le> x \<Longrightarrow> 0 \<le> to_int c x"
  by (simp add: to_int_def trunc_def)

lemma new_demand_nonneg: "0 < c \<Longrightarrow> 0 \<le> new_demand_of c inst k"
  by (simp add: new_demand_of_def)

lemma scattered_visit_nonneg:
  assumes c: "0 < c" and len: "length chosen = length dynamic"
      and i: "i < length dynamic" and v: "chosen ! i \<noteq> 0"
  shows "0 \<le> scattered c dynamic chosen ! i"
proof -
  let ?r = "length (filter (\<lambda>b. b) (take i (map (\<lambda>c. c \<noteq> 0) chosen)))"
  have r: "?r < length dynamic" using i by (rule rank_less)
  have "scattered c dynamic chosen ! i = new_demand_of c (dynamic ! ?r) (chosen ! ?r)"
    using i v len r by (simp add: scattered_def masked_scatter_nth)
  then show ?thesis using new_demand_nonneg [OF c] by simp
qed

lemma drop1_update_subset:
  "0 < k \<Longrightarrow> set (drop 1 (xs[k := v])) \<subseteq> insert v (set (drop 1 xs))"
  by (cases xs; cases k) (simp_all add: set_update_subset_insert)

lemma update_dynamic_customers_nonneg:
  assumes c: "0 < c"
      and rect: "rectangular S dynamic"
      and len: "length chosen = length dynamic"
      and rng: "\<forall>k\<in>set chosen. k < S"
      and inv: "\<forall>inst\<in>set dynamic. list_all (\<lambda>d. 0 \<le> d) (drop 1 (demands inst))"
  shows "\<exists>dynamic'. update_dynamic c dynamic chosen = Inr dynamic'
           \<and> (\<forall>inst\<in>set dynamic'. list_all (\<lambda>d. 0 \<le> to_int c d) (drop 1 (demands inst)))"
proof -
  let ?row = "\<lambda>i. row_result c (length dynamic) (dynamic ! i) (chosen ! i) (scattered c dynamic chosen ! i)"
  have "list_all (\<lambda>d. 0 \<le> d) (drop 1 (demands (?row i)))" if i: "i < length dynamic" for i
  proof -
    have old: "list_all (\<lambda>d. 0 \<le> d) (drop 1 (demands (dynamic ! i)))"
      using inv i by simp
    show ?thesis
    proof (cases "chosen ! i = 0")
      case True
      then show ?thesis
        using old by (simp add: row_result_def drop_update_cancel list_all_iff)
    next
      case False
      have nd: "0 \<le> scattered c dynamic chosen ! i"
        by (rule scattered_visit_nonneg [OF c len i False])
      have "set (drop 1 ((demands (dynamic ! i))[chosen ! i := scattered c dynamic chosen ! i]))
            \<subseteq> insert (scattered c dynamic chosen ! i) (set (drop 1 (demands (dynamic ! i))))"
        using False by (intro drop1_update_subset) simp
      then show ?thesis
        using old nd False by (auto simp: row_result_def drop_update_cancel list_all_iff)
    qed
  qed
  then have "\<forall>inst\<in>set (map ?row [0..<length dynamic]).
               list_all (\<lambda>d. 0 \<le> to_int c d) (drop 1 (demands inst))"
    using c by (auto simp: list_all_iff to_int_nonneg)
  then show ?thesis
    using update_dynamic_rows [OF rect len rng, of c] by simp
qed

lemma init_customers_nonneg:
  assumes ok: "init rand randint num_samples input_size max_load max_demand = Inr ds"
      and draws: "\<forall>i j. 0 \<le> randint i j"
  shows "\<forall>inst\<in>set (ds_dynamic ds). list_all (\<lambda>d. 0 \<le> d) (drop 1 (demands inst))"
proof -
  have pos: "0 < max_load" using ok by (auto simp: init_def split: if_splits)
  have "0 \<le> x" if "x \<in> set (drop 1 ((map (\<lambda>d. d / rat_of_int max_load)
                     (map (\<lambda>j. rat_of_int (randint i j)) [0..<n]))[0 := 0]))" for x i n
    using that draws pos by (auto simp: drop_update_cancel drop_map)
  then show ?thesis
    using ok unfolding init_def Let_def
    by (auto simp: list_all_iff in_set_zip split: if_splits)
qed

section \<open>Claims about update\_dynamic\<close>

text \<open>
  C10. Every load row of the initial state holds the same value in all slots, and so does
  every load row returned by update\_dynamic: a customer visit writes the new load to the
  whole row, a depot visit writes 1 to the whole row.
\<close>

theorem load_rows_uniform:
  "(init rand randint num_samples input_size max_load max_demand = Inr ds \<longrightarrow>
      list_all (\<lambda>s. uniform (loads s)) (ds_dynamic ds))
   \<and> (update_dynamic max_load dynamic chosen = Inr dynamic' \<longrightarrow>
        length dynamic' = length dynamic
        \<and> list_all (\<lambda>s. uniform (loads s)) dynamic'
        \<and> (\<forall>i<length dynamic.
              loads (dynamic' ! i)
              = replicate (seq_len dynamic)
                  (if chosen ! i \<noteq> 0 then new_load_of max_load (dynamic ! i) (chosen ! i) else 1)))"
proof (intro conjI impI)
  assume "init rand randint num_samples input_size max_load max_demand = Inr ds"
  from init_dynamic [OF this] show "list_all (\<lambda>s. uniform (loads s)) (ds_dynamic ds)"
    by (auto simp: list_all_iff uniform_replicate)
next
  assume ok: "update_dynamic max_load dynamic chosen = Inr dynamic'"
  note h = update_dynamic_success [OF ok]
  have eq: "dynamic' = map (\<lambda>i. row_result max_load (length dynamic) (dynamic ! i) (chosen ! i)
                                (scattered max_load dynamic chosen ! i)) [0..<length dynamic]"
    using update_dynamic_rows [of "seq_len dynamic" dynamic chosen max_load] h ok by simp
  show "length dynamic' = length dynamic" by (simp add: eq)
  show "list_all (\<lambda>s. uniform (loads s)) dynamic'"
    by (simp add: eq list_all_iff row_result_uniform)
  show "\<forall>i<length dynamic. loads (dynamic' ! i)
          = replicate (seq_len dynamic)
              (if chosen ! i \<noteq> 0 then new_load_of max_load (dynamic ! i) (chosen ! i) else 1)"
    using rectangularD [of "seq_len dynamic" dynamic] h
    by (simp add: eq row_result_def)
qed

theorem load_rows_uniform_witness:
  "init (\<lambda>i f j. 1 / 2) (\<lambda>i j. 3) 1 2 10 9
     = Inr \<lparr>ds_num_samples = 1, ds_max_load = 10, ds_max_demand = 9,
            ds_static = [[[0, 1 / 2, 1 / 2], [0, 1 / 2, 1 / 2]]],
            ds_dynamic = [\<lparr>loads = [1, 1, 1], demands = [0, 3 / 10, 3 / 10]\<rparr>]\<rparr>
   \<and> list_all (\<lambda>s. uniform (loads s)) [\<lparr>loads = [1, 1, 1], demands = [0, 3 / 10, 3 / 10]\<rparr>]
   \<and> update_dynamic 10 [\<lparr>loads = [1, 1, 1], demands = [0, 3 / 10, 3 / 10]\<rparr>] [1]
     = Inr [\<lparr>loads = [7 / 10, 7 / 10, 7 / 10], demands = [- (3 / 10), 0, 3 / 10]\<rparr>]
   \<and> list_all (\<lambda>s. uniform (loads s))
        [\<lparr>loads = [7 / 10, 7 / 10, 7 / 10], demands = [- (3 / 10), 0, 3 / 10]\<rparr>]"
proof -
  let ?ds = "\<lparr>ds_num_samples = 1, ds_max_load = 10, ds_max_demand = 9,
            ds_static = [[[0, 1 / 2, 1 / 2], [0, 1 / 2, 1 / 2::real]]],
            ds_dynamic = [\<lparr>loads = [1, 1, 1], demands = [0, 3 / 10, 3 / 10::rat]\<rparr>]\<rparr>"
  let ?d' = "[\<lparr>loads = [7 / 10, 7 / 10, 7 / 10], demands = [- (3 / 10), 0, 3 / 10::rat]\<rparr>]"
  have h1: "init (\<lambda>i f j. 1 / 2) (\<lambda>i j. 3) 1 2 10 9 = Inr ?ds"
    by (simp add: init_def Let_def eval_nat_numeral)
  have h2: "update_dynamic 10 [\<lparr>loads = [1, 1, 1], demands = [0, 3 / 10, 3 / 10]\<rparr>] [1] = Inr ?d'"
    by (simp add: update_dynamic_def is_tensor_def rectangular_def seq_len_def trunc_def any_def
          assign_where_def float_of_def masked_scatter_def Let_def upt_conv_Cons)
  note r = load_rows_uniform [of "\<lambda>i f j. 1 / 2" "\<lambda>i j. 3" 1 2 10 9 ?ds
         "[\<lparr>loads = [1, 1, 1], demands = [0, 3 / 10, 3 / 10]\<rparr>]" "[1]" ?d']
  from r h1 have "list_all (\<lambda>s. uniform (loads s)) (ds_dynamic ?ds)" by blast
  then have a: "list_all (\<lambda>s. uniform (loads s))
                  [\<lparr>loads = [1, 1, 1], demands = [0, 3 / 10, 3 / 10]\<rparr>]"
    by (simp only: dataset.simps)
  from r h2 have b: "list_all (\<lambda>s. uniform (loads s)) ?d'" by blast
  show ?thesis by (intro conjI h1 h2 a b)
qed

text \<open>
  C2, at a batch in which sample 0 visits the depot and sample 1 visits customer 2 with load
  4 and demand 7 in integer units. \<open>masked_scatter_\<close> hands sample 1 the first element
  of its source, which is the value computed for sample 0, so the demand left at the chosen
  node is 0 instead of \<open>(7 - min 4 7) / 10\<close>. The load and the depot marker of sample 1
  are as the claim says.
\<close>

theorem update_dynamic_mixed_batch:
  "load_units 10 \<lparr>loads = [2 / 5, 2 / 5, 2 / 5], demands = [- (3 / 5), 0, 7 / 10]\<rparr> 2 = 4
   \<and> demand_units 10 \<lparr>loads = [2 / 5, 2 / 5, 2 / 5], demands = [- (3 / 5), 0, 7 / 10]\<rparr> 2 = 7
   \<and> update_dynamic 10
        [\<lparr>loads = [2 / 5, 2 / 5, 2 / 5], demands = [- (3 / 5), 0, 7 / 10]\<rparr>,
         \<lparr>loads = [2 / 5, 2 / 5, 2 / 5], demands = [- (3 / 5), 0, 7 / 10]\<rparr>] [0, 2]
     = Inr [\<lparr>loads = [1, 1, 1], demands = [0, 0, 7 / 10]\<rparr>,
            \<lparr>loads = [0, 0, 0], demands = [- 1, 0, 0]\<rparr>]"
  by (simp add: update_dynamic_def load_units_def demand_units_def is_tensor_def rectangular_def
        seq_len_def trunc_def any_def assign_where_def float_of_def masked_scatter_def Let_def
        upt_conv_Cons)

text \<open>
  C9, at two batches that differ only in the state of sample 1. Sample 2 has the same state
  and the same chosen node in both, and its returned demand row differs: the demand written
  at its chosen node is the value computed for sample 1.
\<close>

theorem update_dynamic_cross_sample:
  "update_dynamic 10
     [\<lparr>loads = [2 / 5, 2 / 5, 2 / 5], demands = [- (3 / 5), 0, 7 / 10]\<rparr>,
      \<lparr>loads = [2 / 5, 2 / 5, 2 / 5], demands = [- (3 / 5), 0, 7 / 10]\<rparr>,
      \<lparr>loads = [2 / 5, 2 / 5, 2 / 5], demands = [- (3 / 5), 0, 7 / 10]\<rparr>] [0, 2, 2]
   = Inr [\<lparr>loads = [1, 1, 1], demands = [0, 0, 7 / 10]\<rparr>,
          \<lparr>loads = [0, 0, 0], demands = [- 1, 0, 0]\<rparr>,
          \<lparr>loads = [0, 0, 0], demands = [- 1, 0, 3 / 10]\<rparr>]
   \<and> update_dynamic 10
     [\<lparr>loads = [2 / 5, 2 / 5, 2 / 5], demands = [- (3 / 5), 0, 7 / 10]\<rparr>,
      \<lparr>loads = [1, 1, 1], demands = [0, 0, 7 / 10]\<rparr>,
      \<lparr>loads = [2 / 5, 2 / 5, 2 / 5], demands = [- (3 / 5), 0, 7 / 10]\<rparr>] [0, 2, 2]
   = Inr [\<lparr>loads = [1, 1, 1], demands = [0, 0, 7 / 10]\<rparr>,
          \<lparr>loads = [3 / 10, 3 / 10, 3 / 10], demands = [- (7 / 10), 0, 0]\<rparr>,
          \<lparr>loads = [0, 0, 0], demands = [- 1, 0, 0]\<rparr>]"
  by (simp add: update_dynamic_def is_tensor_def rectangular_def
        seq_len_def trunc_def any_def assign_where_def float_of_def masked_scatter_def Let_def
        upt_conv_Cons)

section \<open>Claims about the unit conversion\<close>

text \<open>
  A positive value whose scaling by \<open>2 ^ k\<close> lies in \<open>[2 ^ 23, 2 ^ 24)\<close> is rounded
  at that scale; the values below are the floats that occur at capacity 37.
\<close>

lemma floor_rat_numeral:
  "\<lfloor>numeral a / numeral b :: rat\<rfloor> = numeral a div numeral b"
  using floor_divide_of_int_eq [of "numeral a" "numeral b", where ?'a = rat] by simp

lemma norm_down_scale:
  "0 < a \<Longrightarrow> 2 ^ 23 \<le> a * 2 ^ k \<Longrightarrow> a * 2 ^ k < 2 ^ 24 \<Longrightarrow> k \<le> n \<Longrightarrow>
   norm_down n a u = (a * 2 ^ k, u / 2 ^ k)"
proof (induction n arbitrary: a u k)
  case 0
  then show ?case by simp
next
  case (Suc n)
  show ?case
  proof (cases "2 ^ 23 \<le> a")
    case True
    have "k = 0"
    proof (rule ccontr)
      assume "k \<noteq> 0"
      then have "(2::rat) \<le> 2 ^ k" by (cases k) simp_all
      then have "a * 2 \<le> a * 2 ^ k" using Suc.prems(1) by simp
      then show False using True Suc.prems(3) by simp
    qed
    then show ?thesis using True by simp
  next
    case False
    then obtain j where j: "k = Suc j" using Suc.prems(2) by (cases k) simp_all
    have "norm_down n (2 * a) (u / 2) = (2 * a * 2 ^ j, u / 2 / 2 ^ j)"
      using Suc.prems j by (intro Suc.IH) (simp_all add: mult.assoc)
    then show ?thesis using False j by (simp add: mult.assoc)
  qed
qed

lemma fl32_scaled:
  assumes "0 < x" "2 ^ 23 \<le> x * 2 ^ k" "x * 2 ^ k < 2 ^ 24" "k \<le> 149"
  shows "fl32 x = of_int (round_even (x * 2 ^ k)) / 2 ^ k"
proof -
  have "x < 2 ^ 23 \<or> k = 0"
  proof (cases k)
    case 0 then show ?thesis by simp
  next
    case (Suc j)
    then have "(2::rat) \<le> 2 ^ k" by simp
    then have "x * 2 \<le> x * 2 ^ k" using assms(1) by simp
    then show ?thesis using assms(3) by simp
  qed
  then show ?thesis
  proof
    assume "x < 2 ^ 23"
    then show ?thesis
      using assms norm_down_scale [of x k 149 1] by (simp add: fl32_def)
  next
    assume k: "k = 0"
    then have "\<not> x < 2 ^ 23" "x < 2 ^ 24" using assms by simp_all
    then show ?thesis
      using assms k by (simp add: fl32_def eval_nat_numeral(2) [of "num.Bit1 _"] numeral_eq_Suc)
  qed
qed

lemma fl32_zero: "fl32 0 = 0"
  by (simp add: fl32_def split_def)

lemma fl32_3_37: "fl32 (3 / 37) = 5441259 / 67108864"
  by (subst fl32_scaled [of _ 27]) (simp_all add: round_even_def Let_def floor_rat_numeral)

lemma fl32_35_37: "fl32 (35 / 37) = 15870339 / 16777216"
  by (subst fl32_scaled [of _ 24]) (simp_all add: round_even_def Let_def floor_rat_numeral)

lemma fl32_33_37: "fl32 (33 / 37) = 14963463 / 16777216"
  by (subst fl32_scaled [of _ 24]) (simp_all add: round_even_def Let_def floor_rat_numeral)

lemma fl32_1: "fl32 1 = 1"
  by (subst fl32_scaled [of _ 23]) (simp_all add: round_even_def Let_def)

lemma fl32_37: "fl32 37 = 37"
  by (subst fl32_scaled [of _ 18]) (simp_all add: round_even_def Let_def)

lemma fl32_below_3: "fl32 (201326583 / 67108864) = 12582911 / 4194304"
  by (subst fl32_scaled [of _ 22]) (simp_all add: round_even_def Let_def floor_rat_numeral)

lemma fl32_near_35: "fl32 (587202543 / 16777216) = 35"
  by (subst fl32_scaled [of _ 18]) (simp_all add: round_even_def Let_def floor_rat_numeral)

lemma fl32_near_33: "fl32 (553648131 / 16777216) = 33"
  by (subst fl32_scaled [of _ 18]) (simp_all add: round_even_def Let_def floor_rat_numeral)

lemmas fl32_values = fl32_zero fl32_3_37 fl32_35_37 fl32_33_37 fl32_1 fl32_37
  fl32_below_3 fl32_near_35 fl32_near_33

text \<open>
  C5, at capacity 37 with two customers of demand 3. The stored demand \<open>3 / 37\<close> is read
  back as 2 units, because the float32 product lies just below 3 and \<open>.int()\<close> truncates.
  Starting from the full load, the two visits leave the stored loads \<open>35 / 37\<close> and
  \<open>33 / 37\<close>, read back as 33 units, and both demands at 0; the computation on integer
  units leaves 34 and then 31. The difference grows by one unit with each visit.
\<close>

theorem unit_conversion_drift:
  "to_int32 37 (store32 37 3) = 2
   \<and> visit32 37 (store32 37 37) (store32 37 3) = (store32 37 35, 0)
   \<and> visit32 37 (store32 37 35) (store32 37 3) = (store32 37 33, 0)
   \<and> to_int32 37 (store32 37 33) = 33
   \<and> exact_visit 37 3 = (34, 0)
   \<and> exact_visit 34 3 = (31, 0)"
  by (simp add: to_int32_def store32_def visit32_def exact_visit_def trunc_def Let_def
        fl32_values floor_rat_numeral)

section \<open>Claims about reward\<close>

lemma euclid_sym: "euclid p q = euclid q p"
proof -
  have "(\<Sum>(a, b)\<leftarrow>zip p q. (a - b) ^ 2) = (\<Sum>(a, b)\<leftarrow>zip q p. (a - b) ^ 2)"
  proof (induction p arbitrary: q)
    case Nil
    then show ?case by simp
  next
    case (Cons x p)
    then show ?case by (cases q) (simp_all add: power2_commute)
  qed
  then show ?thesis by (simp add: euclid_def)
qed

lemma dist_euclid:
  "sqrt (sum_list (map (\<lambda>d. d ^ 2) (map2 (\<lambda>a b. a - b) p q))) = euclid p q"
  by (simp add: euclid_def o_def split_def)

lemma consecutive_sum:
  "sum_list (map2 (\<lambda>p q. sqrt (sum_list (map (\<lambda>d. d ^ 2) (map2 (\<lambda>a b. a - b) p q))))
               (butlast y) (tl y)) = path_length y"
  unfolding dist_euclid
  by (induction y rule: path_length.induct) simp_all

lemma reward_one_in_range:
  assumes "in_range s t"
  shows "reward_one s t = Inr (path_length (location s 0 # map (location s) t @ [location s 0]))"
proof -
  have a: "\<not> list_ex (\<lambda>row. list_ex (\<lambda>k. length row \<le> k) t) s"
    using assms by (fastforce simp: in_range_def list_all_iff list_ex_iff)
  have b: "\<not> list_ex (\<lambda>row. row = []) s"
    using assms by (auto simp: in_range_def list_all_iff list_ex_iff)
  have y: "[map (\<lambda>row. row ! 0) s] @ map (\<lambda>k. map (\<lambda>row. row ! k) s) t @ [map (\<lambda>row. row ! 0) s]
           = location s 0 # map (location s) t @ [location s 0]"
    by (simp add: location_def)
  show ?thesis
    unfolding reward_one_def Let_def y consecutive_sum using a b by simp
qed

lemma reward_loop_in_range:
  "list_all2 in_range static tours \<Longrightarrow>
   reward_loop static tours
   = Inr (map2 (\<lambda>s t. path_length (location s 0 # map (location s) t @ [location s 0]))
            static tours)"
  by (induction static tours rule: list_all2_induct) (simp_all add: reward_one_in_range)

lemma reward_empty_batch: "reward [] tour_indices = Inl RuntimeError"
  by (simp add: reward_def)

text \<open>
  C6. For a batch of at least one sample and tour indices within the rows, reward returns
  for each sample the length of the path that starts at the depot, follows the tour and
  ends at the depot; for a tour of one customer this is twice the distance between the
  depot and the customer. On the empty batch the source raises.
\<close>

theorem reward_is_tour_length:
  assumes batch: "static \<noteq> []"
      and rng: "list_all2 in_range static tour_indices"
  shows "\<exists>rs. reward static tour_indices = Inr rs \<and> length rs = length static
          \<and> (\<forall>i<length static.
                rs ! i = path_length (location (static ! i) 0
                                      # map (location (static ! i)) (tour_indices ! i)
                                      @ [location (static ! i) 0])
                \<and> (\<forall>j. tour_indices ! i = [j] \<longrightarrow>
                       rs ! i = 2 * euclid (location (static ! i) 0) (location (static ! i) j)))"
proof -
  let ?f = "\<lambda>s t. path_length (location s 0 # map (location s) t @ [location s 0])"
  have len: "length static = length tour_indices"
    using rng by (rule list_all2_lengthD)
  have eq: "reward static tour_indices = Inr (map2 ?f static tour_indices)"
    unfolding reward_def reward_loop_in_range [OF rng] using batch len by auto
  have single: "?f s [j] = 2 * euclid (location s 0) (location s j)" for s j
    using euclid_sym [of "location s j" "location s 0"] by simp
  show ?thesis
    using eq len single by auto
qed

theorem reward_is_tour_length_witness:
  "[[[0, 1, 0], [0, 0, 1::real]]] \<noteq> []
   \<and> list_all2 in_range [[[0, 1, 0], [0, 0, 1]]] [[1]]
   \<and> (\<exists>rs. reward [[[0, 1, 0], [0, 0, 1]]] [[1]] = Inr rs \<and> rs ! 0 = 2
          \<and> euclid (location [[0, 1, 0], [0, 0, 1]] 0) (location [[0, 1, 0], [0, 0, 1]] 1) = 1)"
proof -
  let ?s = "[[0, 1, 0], [0, 0, 1::real]]"
  have h: "list_all2 in_range [?s] [[1]]" by (simp add: in_range_def)
  have e: "euclid (location ?s 0) (location ?s 1) = 1" by (simp add: euclid_def location_def)
  have b: "[?s] \<noteq> []" by simp
  from reward_is_tour_length [OF b h] obtain rs where
    rs: "reward [?s] [[1]] = Inr rs"
        "\<forall>i<length [?s]. \<forall>j. [[1::nat]] ! i = [j] \<longrightarrow>
              rs ! i = 2 * euclid (location ([?s] ! i) 0) (location ([?s] ! i) j)"
    by blast
  from rs(2) have "rs ! 0 = 2 * euclid (location ?s 0) (location ?s 1)" by simp
  with e rs(1) h b show ?thesis by simp
qed

section \<open>Claims about the constructor\<close>

text \<open>
  C7, as the code has it. The constructor raises ValueError exactly when
  \<open>max_load < max_demand\<close> and has no check on \<open>num_samples\<close> or \<open>input_size\<close>:
  with \<open>1 \<le> max_demand \<le> max_load\<close> and sizes that are not negative it returns a
  dataset, also for \<open>input_size = 0\<close>. update\_mask and update\_dynamic return a result on every
  tensor-shaped state with one chosen index per sample (in range for update\_dynamic).
\<close>

theorem init_value_error_iff:
  "(init rand randint num_samples input_size max_load max_demand = Inl ValueError
      \<longleftrightarrow> max_load < max_demand)
   \<and> (1 \<le> max_demand \<and> max_demand \<le> max_load \<and> 0 \<le> num_samples \<and> 0 \<le> input_size
        \<longrightarrow> (\<exists>ds. init rand randint num_samples input_size max_load max_demand = Inr ds
                  \<and> length (ds_dynamic ds) = nat num_samples
                  \<and> rectangular (nat (input_size + 1)) (ds_dynamic ds)))
   \<and> (rectangular S dynamic \<and> length chosen = length dynamic
        \<longrightarrow> (\<exists>m. update_mask max_load mask_arg dynamic (Some chosen) = Inr m))
   \<and> (rectangular S dynamic \<and> length chosen = length dynamic \<and> (\<forall>k\<in>set chosen. k < S)
        \<longrightarrow> (\<exists>dynamic'. update_dynamic max_load dynamic chosen = Inr dynamic'))"
proof (intro conjI impI)
  show "init rand randint num_samples input_size max_load max_demand = Inl ValueError
          \<longleftrightarrow> max_load < max_demand"
    by (simp add: init_def Let_def)
next
  assume "1 \<le> max_demand \<and> max_demand \<le> max_load \<and> 0 \<le> num_samples \<and> 0 \<le> input_size"
  then show "\<exists>ds. init rand randint num_samples input_size max_load max_demand = Inr ds
                  \<and> length (ds_dynamic ds) = nat num_samples
                  \<and> rectangular (nat (input_size + 1)) (ds_dynamic ds)"
    by (auto simp: init_def Let_def rectangular_def list_all_iff in_set_zip)
next
  assume "rectangular S dynamic \<and> length chosen = length dynamic"
  then show "\<exists>m. update_mask max_load mask_arg dynamic (Some chosen) = Inr m"
    using update_mask_cases [of S dynamic max_load mask_arg "Some chosen"] by simp
next
  assume "rectangular S dynamic \<and> length chosen = length dynamic \<and> (\<forall>k\<in>set chosen. k < S)"
  then show "\<exists>dynamic'. update_dynamic max_load dynamic chosen = Inr dynamic'"
    using update_dynamic_rows [of S dynamic chosen max_load] by simp
qed

theorem init_value_error_iff_witness:
  "init (\<lambda>i f j. 1 / 2) (\<lambda>i j. 3) 1 2 10 9 \<noteq> Inl ValueError
   \<and> (\<exists>ds. init (\<lambda>i f j. 1 / 2) (\<lambda>i j. 3) 1 2 10 9 = Inr ds
          \<and> length (ds_dynamic ds) = nat 1 \<and> rectangular (nat (2 + 1)) (ds_dynamic ds))
   \<and> rectangular 3 [\<lparr>loads = [1, 1, 1], demands = [0, 3 / 10, 3 / 10]\<rparr>]
   \<and> (\<exists>m. update_mask 10 [] [\<lparr>loads = [1, 1, 1], demands = [0, 3 / 10, 3 / 10]\<rparr>] (Some [1])
            = Inr m)
   \<and> (\<exists>dynamic'. update_dynamic 10 [\<lparr>loads = [1, 1, 1], demands = [0, 3 / 10, 3 / 10]\<rparr>] [1]
            = Inr dynamic')"
proof -
  let ?d = "[\<lparr>loads = [1, 1, 1], demands = [0, 3 / 10, 3 / 10::rat]\<rparr>]"
  have h1: "(1::int) \<le> 9 \<and> (9::int) \<le> 10 \<and> (0::int) \<le> 1 \<and> (0::int) \<le> 2" by simp
  have h2: "rectangular 3 ?d" by (simp add: rectangular_def)
  have h3: "rectangular 3 ?d \<and> length [1::nat] = length ?d" using h2 by simp
  have h4: "rectangular 3 ?d \<and> length [1::nat] = length ?d \<and> (\<forall>k\<in>set [1::nat]. k < 3)"
    using h2 by simp
  note r = init_value_error_iff [of "\<lambda>i f j. 1 / 2" "\<lambda>i j. 3" 1 2 10 9 3 ?d "[1]" "[]"]
  have a: "init (\<lambda>i f j. 1 / 2) (\<lambda>i j. 3) 1 2 10 9 \<noteq> Inl ValueError"
    using r by simp
  from r h1 have b: "\<exists>ds. init (\<lambda>i f j. 1 / 2) (\<lambda>i j. 3) 1 2 10 9 = Inr ds
          \<and> length (ds_dynamic ds) = nat 1 \<and> rectangular (nat (2 + 1)) (ds_dynamic ds)"
    by blast
  from r h3 have c: "\<exists>m. update_mask 10 [] ?d (Some [1]) = Inr m" by blast
  from r h4 have d: "\<exists>dynamic'. update_dynamic 10 ?d [1] = Inr dynamic'" by blast
  show ?thesis by (intro conjI a b h2 c d)
qed

text \<open>
  C7 as stated fails: \<open>input_size = 0\<close> is not positive and the constructor returns a
  dataset of two samples that consist of the depot alone.
\<close>

theorem init_no_size_check_counterexample:
  "init (\<lambda>i f j. 1 / 2) (\<lambda>i j. 3) 2 0 20 9
   = Inr \<lparr>ds_num_samples = 2, ds_max_load = 20, ds_max_demand = 9,
          ds_static = [[[0], [0]], [[0], [0]]],
          ds_dynamic = [\<lparr>loads = [1], demands = [0]\<rparr>, \<lparr>loads = [1], demands = [0]\<rparr>]\<rparr>"
  by (simp add: init_def Let_def eval_nat_numeral)

end
